theory Spec2Isabelle
  imports Main "HOL-Library.Sublist" "HOL-Library.Multiset"
begin

section \<open>The WordPress content client (src/lib/wordpress.ts)\<close>

text \<open>
  The module is a thin client of the WordPress REST API: one generic request helper
  (\<open>wpFetch\<close>), seven typed accessors built on it, one grouping function and four
  formatting helpers.  The embedding below follows the source function by function.

  Conventions of the embedding.
  \<^item> A JavaScript string is a \<open>string\<close>, read as its sequence of code units; only code
    units below 256 are represented, and the character classes of the platform
    (white space, letter case) are given on that range.
  \<^item> A value that may be \<open>null\<close> or \<open>undefined\<close> is an \<open>option\<close>, also where the
    TypeScript interface declares it present but the code guards it (\<open>?.\<close>, \<open>??\<close>).
  \<^item> A promise is the value it settles to: \<open>Inl e\<close> when it rejects with \<open>e\<close> (or the
    function throws \<open>e\<close>), \<open>Inr v\<close> when it resolves to \<open>v\<close>.
  \<^item> The parts of the platform the module calls but does not contain (the URL parser, the
    network, the date localisation) are parameters.
\<close>

subsection \<open>Platform strings\<close>

text \<open>White space of \<open>String.prototype.trim\<close> among the code units below 256:
  TAB, LF, VT, FF, CR, SPACE and NO-BREAK SPACE.\<close>

definition isWhiteSpace :: "char \<Rightarrow> bool" where
  "isWhiteSpace c = (of_char c \<in> {9, 10, 11, 12, 13, 32, 160 :: nat})"

definition trimStart :: "string \<Rightarrow> string" where
  "trimStart s = dropWhile isWhiteSpace s"

definition trimEnd :: "string \<Rightarrow> string" where
  "trimEnd s = rev (dropWhile isWhiteSpace (rev s))"

definition trim :: "string \<Rightarrow> string" where
  "trim s = trimEnd (trimStart s)"

text \<open>\<open>s.split(sep)\<close> for a one-character separator: the pieces between the separators,
  empty pieces included; the empty string gives one empty piece.\<close>

fun split_js :: "char \<Rightarrow> string \<Rightarrow> string list" where
  "split_js sep [] = [[]]"
| "split_js sep (c # cs) =
     (if c = sep then [] # split_js sep cs
      else (case split_js sep cs of
              [] \<Rightarrow> [[c]]
            | t # ts \<Rightarrow> (c # t) # ts))"

text \<open>The inverse of \<open>split_js\<close>, \<open>pieces.join(sep)\<close>; used to state what the split is.\<close>

fun join_js :: "char \<Rightarrow> string list \<Rightarrow> string" where
  "join_js sep [] = []"
| "join_js sep [t] = t"
| "join_js sep (t # u # ts) = t @ sep # join_js sep (u # ts)"


text \<open>\<open>toLowerCase\<close> on code units below 256: A to Z, and the capital letters of the
  Latin-1 block (0xC0 to 0xDE without the multiplication sign 0xD7), move up by 32.\<close>

definition toLowerCase_char :: "char \<Rightarrow> char" where
  "toLowerCase_char c =
     (let n = (of_char c :: nat)
      in if (65 \<le> n \<and> n \<le> 90) \<or> (192 \<le> n \<and> n \<le> 222 \<and> n \<noteq> 215)
         then char_of (n + 32) else c)"

definition toLowerCase :: "string \<Rightarrow> string" where
  "toLowerCase s = map toLowerCase_char s"

text \<open>The decimal numeral of an integer: \<open>String(n)\<close> for an integer \<open>n\<close> of magnitude
  below \<open>2^53\<close>, where every integer is a number and is printed digit by digit.\<close>

definition digit_char :: "nat \<Rightarrow> char" where
  "digit_char d = char_of (48 + d)"

fun String_nat :: "nat \<Rightarrow> string" where
  "String_nat n =
     (if n < 10 then [digit_char n] else String_nat (n div 10) @ [digit_char (n mod 10)])"

declare String_nat.simps [simp del]

definition String_int :: "int \<Rightarrow> string" where
  "String_int i = (if i < 0 then CHR ''-'' # String_nat (nat (- i)) else String_nat (nat i))"

text \<open>\<open>arr[i]\<close> on an array: \<open>undefined\<close> beyond its end.\<close>

definition nth_opt :: "'a list \<Rightarrow> nat \<Rightarrow> 'a option" where
  "nth_opt xs i = (if i < length xs then Some (xs ! i) else None)"

subsection \<open>Types (lines 15 to 73)\<close>

datatype js_error = Error string | TypeError string | SyntaxError string

record rendered_text =
  rendered :: string

text \<open>An entry of \<open>wp:featuredmedia\<close>.  The interface declares \<open>source_url\<close> a string;
  \<open>getFeaturedImage\<close> guards its absence, so it is optional here.\<close>

record media =
  source_url :: "string option"
  alt_text :: string

record wp_term =
  term_id :: int
  term_name :: string
  term_slug :: string

record embedded =
  wp_featuredmedia :: "media list option"
  wp_term :: "wp_term list list option"

typedecl unknown

record WPPost =
  post_id :: int
  post_slug :: string
  post_date :: string
  post_title :: rendered_text
  post_excerpt :: rendered_text
  post_content :: rendered_text
  post_embedded :: "embedded option"
  post_acf :: "(string \<times> unknown) list option"

record WPCategory =
  cat_id :: int
  cat_name :: string
  cat_slug :: string
  cat_count :: int

record project_acf =
  project_url :: string
  github_url :: string
  project_description :: string
  project_technologies :: string
  featured_image :: string
  project_year :: string
  project_category :: string

record Project =
  project_id :: int
  project_title :: rendered_text
  project_acf :: project_acf

text \<open>The interface declares \<open>category\<close> a string; \<open>groupSkillsByCategory\<close> guards
  its absence with \<open>??\<close>, so it is optional here.\<close>

record skill_acf =
  level :: int
  category :: "string option"
  icon :: string

record Skill =
  skill_id :: int
  skill_title :: rendered_text
  skill_acf :: skill_acf

record experience_acf =
  company :: string
  position :: string
  start_date :: string
  end_date :: string
  exp_description :: string
  exp_technologies :: string
  company_url :: string

record Experience =
  exp_id :: int
  exp_title :: rendered_text
  exp_acf :: experience_acf

subsection \<open>The request helper (lines 9 and 79 to 89)\<close>

text \<open>A parsed URL: the text it was built from and its search parameters, in order.\<close>

record url =
  href :: string
  searchParams :: "(string \<times> string) list"

text \<open>\<open>url.searchParams.set(k, v)\<close>: the first parameter named \<open>k\<close> takes the value
  \<open>v\<close> and the later ones of that name go; without one, the pair is appended.\<close>

fun searchParams_set :: "string \<Rightarrow> string \<Rightarrow> (string \<times> string) list \<Rightarrow> (string \<times> string) list" where
  "searchParams_set k v [] = [(k, v)]"
| "searchParams_set k v (p # ps) =
     (if fst p = k then (k, v) # filter (\<lambda>q. fst q \<noteq> k) ps
      else p # searchParams_set k v ps)"

record request =
  req_url :: url
  req_headers :: "(string \<times> string) list"

text \<open>A response: its status, and what \<open>res.json()\<close> settles to, the decoded body (taken
  to have the type the caller asserts, as the cast does without a check) or the failure
  of the decoder.\<close>

record 'a response =
  status :: nat
  json :: "js_error + 'a"

text \<open>\<open>res.ok\<close>: the status is in the range 200 to 299.\<close>

definition ok :: "'a response \<Rightarrow> bool" where
  "ok res = (200 \<le> status res \<and> status res \<le> 299)"

text \<open>
  What the module is given: the environment variable \<open>WP_API_URL\<close>, the \<open>URL\<close>
  constructor (\<open>Inl\<close> the TypeError of a text that is no URL, else the parsed URL with the
  search parameters its text already has), \<open>fetch\<close> (\<open>Inl\<close> a network failure), and
  the printing of large numbers.
  \<open>'a\<close> is the type the caller asserts for the decoded body.
\<close>

record 'a world =
  WP_API_URL :: "string option"
  new_URL :: "string \<Rightarrow> js_error + url"
  fetch :: "request \<Rightarrow> js_error + 'a response"
  String_large :: "int \<Rightarrow> string"

text \<open>\<open>String(n)\<close> on a count or page number: the decimal numeral below \<open>2^53\<close>; from
  there on (where not every integer is a number, and the exponent form sets in at
  \<open>1e21\<close>) what the platform prints.\<close>

definition String_number :: "'a world \<Rightarrow> int \<Rightarrow> string" where
  "String_number w n = (if \<bar>n\<bar> < 2 ^ 53 then String_int n else String_large w n)"

definition BASE :: "'a world \<Rightarrow> string" where
  "BASE w = (case WP_API_URL w of None \<Rightarrow> ''https://tu-sitio.com/wp-json'' | Some u \<Rightarrow> u)"

text \<open>Lines 80 to 85: the request \<open>wpFetch\<close> builds before it calls \<open>fetch\<close>.\<close>

definition wpRequest :: "'a world \<Rightarrow> string \<Rightarrow> (string \<times> string) list option \<Rightarrow> js_error + request" where
  "wpRequest w endpoint params =
     (case new_URL w (BASE w @ endpoint) of
        Inl e \<Rightarrow> Inl e
      | Inr u \<Rightarrow>
          Inr \<lparr> req_url =
                  (case params of
                     None \<Rightarrow> u
                   | Some ps \<Rightarrow>
                       fold (\<lambda>(k, v) u'. u'\<lparr> searchParams := searchParams_set k v (searchParams u') \<rparr>) ps u),
                req_headers = [(''Content-Type'', ''application/json'')] \<rparr>)"

text \<open>\<open>wpFetch\<close> gives the value its promise settles to, and the requests it has sent.\<close>

definition wpFetch :: "'a world \<Rightarrow> string \<Rightarrow> (string \<times> string) list option \<Rightarrow> (js_error + 'a) \<times> request list" where
  "wpFetch w endpoint params =
     (case wpRequest w endpoint params of
        Inl e \<Rightarrow> (Inl e, [])
      | Inr req \<Rightarrow>
          (case fetch w req of
             Inl e \<Rightarrow> (Inl e, [req])
           | Inr res \<Rightarrow>
               if \<not> ok res
               then (Inl (Error (''WP API Error '' @ String_nat (status res) @ '': '' @ endpoint)), [req])
               else (json res, [req])))"

subsection \<open>The accessors (lines 100 to 191)\<close>

text \<open>An argument with a default value is an \<open>option\<close>: \<open>None\<close> when the caller leaves
  it out.  Counts and page numbers are integers.\<close>

definition getPosts :: "WPPost list world \<Rightarrow> int option \<Rightarrow> int option \<Rightarrow> (js_error + WPPost list) \<times> request list" where
  "getPosts w perPage page =
     wpFetch w ''/wp/v2/posts''
       (Some [(''per_page'', String_number w (case perPage of None \<Rightarrow> 10 | Some n \<Rightarrow> n)),
              (''page'', String_number w (case page of None \<Rightarrow> 1 | Some n \<Rightarrow> n)),
              (''_embed'', ''1'')])"


definition getLatestPosts :: "WPPost list world \<Rightarrow> int option \<Rightarrow> (js_error + WPPost list) \<times> request list" where
  "getLatestPosts w cnt = getPosts w (Some (case cnt of None \<Rightarrow> 3 | Some n \<Rightarrow> n)) (Some 1)"




definition getExperiences :: "Experience list world \<Rightarrow> (js_error + Experience list) \<times> request list" where
  "getExperiences w =
     (case wpFetch w ''/wp/v2/experience''
             (Some [(''per_page'', ''100''), (''_fields'', ''id,title,acf''),
                    (''orderby'', ''date''), (''order'', ''desc'')]) of
        (Inl e, reqs) \<Rightarrow> (Inl e, reqs)
      | (Inr data, reqs) \<Rightarrow> (Inr data, reqs))"

subsection \<open>Grouping (lines 167 to 173)\<close>

text \<open>
  The accumulator is the object literal \<open>{}\<close>: its own properties, here in the order in
  which they were created, and behind them the properties it inherits from
  \<open>Object.prototype\<close>.  \<open>acc[cat]\<close> reads an own property first and an inherited one
  otherwise.  Each inherited property is a function, or for \<open>__proto__\<close> the prototype
  object: none is \<open>null\<close> or \<open>undefined\<close>, so \<open>??=\<close> leaves it, and none has a
  \<open>push\<close> method, so the call throws a TypeError (with the message Node gives it).
\<close>

definition objectPrototypeKeys :: "string list" where
  "objectPrototypeKeys =
     [''constructor'', ''__defineGetter__'', ''__defineSetter__'', ''hasOwnProperty'',
      ''__lookupGetter__'', ''__lookupSetter__'', ''isPrototypeOf'', ''propertyIsEnumerable'',
      ''toString'', ''valueOf'', ''__proto__'', ''toLocaleString'']"

definition skill_label :: "Skill \<Rightarrow> string" where
  "skill_label skill = (case category (skill_acf skill) of None \<Rightarrow> ''Otros'' | Some c \<Rightarrow> c)"

fun own_update :: "string \<Rightarrow> 'v \<Rightarrow> (string \<times> 'v) list \<Rightarrow> (string \<times> 'v) list" where
  "own_update k v [] = [(k, v)]"
| "own_update k v (p # ps) = (if fst p = k then (k, v) # ps else p # own_update k v ps)"

definition group_step :: "(string \<times> Skill list) list \<Rightarrow> Skill \<Rightarrow> js_error + (string \<times> Skill list) list" where
  "group_step acc skill =
     (let cat = skill_label skill
      in case map_of acc cat of
           Some arr \<Rightarrow> Inr (own_update cat (arr @ [skill]) acc)
         | None \<Rightarrow>
             if cat \<in> set objectPrototypeKeys
             then Inl (TypeError ''acc[cat].push is not a function'')
             else Inr (own_update cat [skill] acc))"

text \<open>\<open>Array.prototype.reduce\<close> with a callback that may throw.\<close>

fun reduce_js :: "('b \<Rightarrow> 'a \<Rightarrow> js_error + 'b) \<Rightarrow> 'a list \<Rightarrow> 'b \<Rightarrow> js_error + 'b" where
  "reduce_js f [] acc = Inr acc"
| "reduce_js f (x # xs) acc = (case f acc x of Inl e \<Rightarrow> Inl e | Inr acc' \<Rightarrow> reduce_js f xs acc')"

definition groupSkillsByCategory :: "Skill list \<Rightarrow> js_error + (string \<times> Skill list) list" where
  "groupSkillsByCategory skills = reduce_js group_step skills []"

text \<open>What the grouping is to compute: the labels in the order of their first
  occurrence, each with the skills of that label in their order.\<close>

definition first_labels :: "Skill list \<Rightarrow> string list" where
  "first_labels skills = rev (remdups (rev (map skill_label skills)))"

definition groups_of :: "Skill list \<Rightarrow> (string \<times> Skill list) list" where
  "groups_of skills =
     map (\<lambda>k. (k, filter (\<lambda>s. skill_label s = k) skills)) (first_labels skills)"

subsection \<open>Formatting helpers (lines 198 to 219)\<close>











definition getFeaturedImage :: "WPPost \<Rightarrow> string" where
  "getFeaturedImage post =
     (case post_embedded post of
        None \<Rightarrow> []
      | Some e \<Rightarrow>
          (case wp_featuredmedia e of
             None \<Rightarrow> []
           | Some ms \<Rightarrow>
               (case nth_opt ms 0 of
                  None \<Rightarrow> []
                | Some m \<Rightarrow> (case source_url m of None \<Rightarrow> [] | Some u \<Rightarrow> u))))"

text \<open>
  \<open>html.replace(/<[^>]*>/g, '')\<close>: the scan goes from left to right; at a \<open><\<close> that has
  a \<open>>\<close> somewhere after it the match runs to the first such \<open>>\<close> and is deleted, and the
  scan goes on behind it; every other character is kept.
\<close>

function removeTags :: "string \<Rightarrow> string" where
  "removeTags [] = []"
| "removeTags (c # cs) =
     (if c = CHR ''<'' \<and> CHR ''>'' \<in> set cs
      then removeTags (tl (dropWhile (\<lambda>d. d \<noteq> CHR ''>'') cs))
      else c # removeTags cs)"
  by pat_completeness auto
termination
proof (relation "measure length")
  show "wf (measure length)" by simp
next
  fix c :: char and cs :: string
  have "length (dropWhile (\<lambda>d. d \<noteq> CHR ''>'') cs) \<le> length cs"
    by (rule length_dropWhile_le)
  then show "(tl (dropWhile (\<lambda>d. d \<noteq> CHR ''>'') cs), c # cs) \<in> measure length"
    by simp
next
  fix c :: char and cs :: string
  show "(cs, c # cs) \<in> measure length" by simp
qed

definition stripHtml :: "string \<Rightarrow> string" where
  "stripHtml html = trim (removeTags html)"

text \<open>A text has a tag when some \<open><\<close> in it has a \<open>>\<close> after it: the texts in which
  the pattern \<open><[^>]*>\<close> has a match.\<close>

fun hasTag :: "string \<Rightarrow> bool" where
  "hasTag [] = False"
| "hasTag (c # cs) = ((c = CHR ''<'' \<and> CHR ''>'' \<in> set cs) \<or> hasTag cs)"

text \<open>
  A text written as pieces: each pair is a stretch of text followed by a tag with the given
  inside, and a last stretch follows them.  \<open>with_tags\<close> is the text with its tags,
  \<open>without_tags\<close> the stretches alone; both are used to state what the substitution
  deletes and what it keeps.
\<close>

fun with_tags :: "(string \<times> string) list \<Rightarrow> string \<Rightarrow> string" where
  "with_tags [] rest = rest"
| "with_tags ((t, b) # ps) rest = t @ CHR ''<'' # b @ CHR ''>'' # with_tags ps rest"

definition without_tags :: "(string \<times> string) list \<Rightarrow> string \<Rightarrow> string" where
  "without_tags ps rest = concat (map fst ps) @ rest"


subsection \<open>Instances for the examples\<close>

text \<open>A server that answers every request with the given status and decoded body, behind a
  URL parser that accepts every text and finds no search parameter in it.  (The printing of
  large numbers plays no part in the examples.)\<close>

definition example_world :: "nat \<Rightarrow> js_error + 'a \<Rightarrow> 'a world" where
  "example_world st body =
     \<lparr> WP_API_URL = None,
       new_URL = (\<lambda>s. Inr \<lparr> href = s, searchParams = [] \<rparr>),
       fetch = (\<lambda>req. Inr \<lparr> status = st, json = body \<rparr>),
       String_large = String_int \<rparr>"



definition example_skill :: "int \<Rightarrow> string option \<Rightarrow> Skill" where
  "example_skill i c =
     \<lparr> skill_id = i, skill_title = \<lparr> rendered = ''Skill'' \<rparr>,
       skill_acf = \<lparr> level = 50, category = c, icon = [] \<rparr> \<rparr>"

definition example_post :: "embedded option \<Rightarrow> WPPost" where
  "example_post e =
     \<lparr> post_id = 1, post_slug = ''hola'', post_date = ''2024-01-15T10:00:00'',
       post_title = \<lparr> rendered = ''Hola'' \<rparr>, post_excerpt = \<lparr> rendered = [] \<rparr>,
       post_content = \<lparr> rendered = [] \<rparr>, post_embedded = e, post_acf = None \<rparr>"

section \<open>Properties\<close>

subsection \<open>Splitting and trimming\<close>

lemma split_js_not_Nil: "split_js sep s \<noteq> []"
  by (induction s) (auto split: list.splits)

lemma join_split_js: "join_js sep (split_js sep s) = s"
proof (induction s)
  case Nil
  show ?case by simp
next
  case (Cons c cs)
  obtain t ts where ts: "split_js sep cs = t # ts"
    using split_js_not_Nil [of sep cs] by (cases "split_js sep cs") auto
  show ?case
  proof (cases "c = sep")
    case True
    with Cons ts show ?thesis by simp
  next
    case False
    with Cons ts show ?thesis by (cases ts) auto
  qed
qed


lemma trimStart_no_lead: "trimStart s = [] \<or> \<not> isWhiteSpace (hd (trimStart s))"
  unfolding trimStart_def by (metis hd_dropWhile)

lemma trimEnd_no_trail: "trimEnd s = [] \<or> \<not> isWhiteSpace (last (trimEnd s))"
  unfolding trimEnd_def by (metis hd_dropWhile last_rev rev_is_Nil_conv)

lemma trimEnd_prefix: "prefix (trimEnd s) s"
proof -
  have "s = trimEnd s @ rev (takeWhile isWhiteSpace (rev s))"
    unfolding trimEnd_def by (metis rev_append rev_rev_ident takeWhile_dropWhile_id)
  then show ?thesis by (metis prefixI)
qed

lemma trimStart_suffix: "suffix (trimStart s) s"
  unfolding trimStart_def by (rule suffix_dropWhile)

lemma trimStart_fix: "s = [] \<or> \<not> isWhiteSpace (hd s) \<Longrightarrow> trimStart s = s"
  unfolding trimStart_def by (cases s) auto

lemma trimEnd_fix: "s = [] \<or> \<not> isWhiteSpace (last s) \<Longrightarrow> trimEnd s = s"
  unfolding trimEnd_def by (cases s rule: rev_cases) auto

lemma trimEnd_keeps_head:
  assumes "s = [] \<or> \<not> isWhiteSpace (hd s)"
  shows "trimEnd s = [] \<or> \<not> isWhiteSpace (hd (trimEnd s))"
proof (cases "trimEnd s")
  case Nil
  then show ?thesis by simp
next
  case (Cons x xs)
  from trimEnd_prefix [of s] obtain r where r: "s = trimEnd s @ r"
    by (auto simp: prefix_def)
  with Cons have "hd s = x" by (metis append_Cons list.sel(1))
  with assms Cons r show ?thesis by auto
qed

lemma trim_no_lead: "trim s = [] \<or> \<not> isWhiteSpace (hd (trim s))"
  unfolding trim_def by (rule trimEnd_keeps_head) (rule trimStart_no_lead)

lemma trim_no_trail: "trim s = [] \<or> \<not> isWhiteSpace (last (trim s))"
  unfolding trim_def by (rule trimEnd_no_trail)

lemma trim_fix: "s = [] \<or> (\<not> isWhiteSpace (hd s) \<and> \<not> isWhiteSpace (last s)) \<Longrightarrow> trim s = s"
  unfolding trim_def by (auto simp: trimStart_fix trimEnd_fix)

lemma trim_idem: "trim (trim s) = trim s"
  using trim_no_lead [of s] trim_no_trail [of s] by (intro trim_fix) auto

lemma trim_sublist: "sublist (trim s) s"
  unfolding trim_def
  by (meson prefix_imp_sublist sublist_order.order_trans suffix_imp_sublist
      trimEnd_prefix trimStart_suffix)



subsection \<open>Tag removal\<close>

lemma set_removeTags: "set (removeTags s) \<subseteq> set s"
proof (induction s rule: removeTags.induct)
  case 1
  show ?case by simp
next
  case (2 c cs)
  show ?case
  proof (cases "c = CHR ''<'' \<and> CHR ''>'' \<in> set cs")
    case True
    have "set (tl (dropWhile (\<lambda>d. d \<noteq> CHR ''>'') cs)) \<subseteq> set cs"
      by (metis list.sel(2) list.set_sel(2) set_dropWhileD subsetI)
    with 2(1) [OF True] True show ?thesis by auto
  next
    case False
    with 2(2) [OF False] show ?thesis by auto
  qed
qed

lemma removeTags_no_tag: "\<not> hasTag (removeTags s)"
proof (induction s rule: removeTags.induct)
  case 1
  show ?case by simp
next
  case (2 c cs)
  show ?case
  proof (cases "c = CHR ''<'' \<and> CHR ''>'' \<in> set cs")
    case True
    with 2(1) [OF True] show ?thesis by simp
  next
    case False
    with 2(2) [OF False] set_removeTags [of cs] show ?thesis by auto
  qed
qed

lemma removeTags_fix: "\<not> hasTag s \<Longrightarrow> removeTags s = s"
  by (induction s) auto

lemma hasTag_append_right: "hasTag q \<Longrightarrow> hasTag (p @ q)"
  by (induction p) auto

lemma hasTag_append_left: "hasTag p \<Longrightarrow> hasTag (p @ q)"
  by (induction p) auto

lemma hasTag_sublist: "sublist t s \<Longrightarrow> hasTag t \<Longrightarrow> hasTag s"
  by (auto simp: sublist_def intro: hasTag_append_right hasTag_append_left)

text \<open>\<open>hasTag\<close> is the existence of a match of the pattern: a \<open><\<close>, then any text, then
  a \<open>>\<close>.\<close>

lemma hasTag_iff: "hasTag s \<longleftrightarrow> (\<exists>a b c. s = a @ CHR ''<'' # b @ CHR ''>'' # c)"
proof
  show "hasTag s \<Longrightarrow> \<exists>a b c. s = a @ CHR ''<'' # b @ CHR ''>'' # c"
  proof (induction s)
    case Nil
    then show ?case by simp
  next
    case (Cons x xs)
    show ?case
    proof (cases "x = CHR ''<'' \<and> CHR ''>'' \<in> set xs")
      case True
      then obtain b c where "xs = b @ CHR ''>'' # c" by (meson split_list)
      with True have "x # xs = [] @ CHR ''<'' # b @ CHR ''>'' # c" by simp
      then show ?thesis by blast
    next
      case False
      with Cons obtain a b c where "xs = a @ CHR ''<'' # b @ CHR ''>'' # c" by auto
      then have "x # xs = (x # a) @ CHR ''<'' # b @ CHR ''>'' # c" by simp
      then show ?thesis by blast
    qed
  qed
next
  assume "\<exists>a b c. s = a @ CHR ''<'' # b @ CHR ''>'' # c"
  then obtain a b c where "s = a @ CHR ''<'' # b @ CHR ''>'' # c" by blast
  moreover have "hasTag (CHR ''<'' # b @ CHR ''>'' # c)" by simp
  ultimately show "hasTag s" by (simp add: hasTag_append_right)
qed

lemma stripHtml_no_tag: "\<not> hasTag (stripHtml s)"
  unfolding stripHtml_def using hasTag_sublist [OF trim_sublist] removeTags_no_tag by blast

lemma subseq_removeTags: "subseq (removeTags s) s"
proof (induction s rule: removeTags.induct)
  case 1
  show ?case by simp
next
  case (2 c cs)
  show ?case
  proof (cases "c = CHR ''<'' \<and> CHR ''>'' \<in> set cs")
    case True
    have "suffix (tl (dropWhile (\<lambda>d. d \<noteq> CHR ''>'') cs)) cs"
      by (meson suffix_dropWhile suffix_order.order_trans suffix_tl)
    then have "subseq (tl (dropWhile (\<lambda>d. d \<noteq> CHR ''>'') cs)) (c # cs)"
      by (meson sublist_imp_subseq suffix_imp_sublist subseq_order.order_trans list_emb_Cons
          subseq_order.order_refl)
    with 2(1) [OF True] True show ?thesis
      by (metis removeTags.simps(2) subseq_order.order_trans)
  next
    case False
    with 2(2) [OF False] show ?thesis by auto
  qed
qed

lemma subseq_stripHtml: "subseq (stripHtml s) s"
  unfolding stripHtml_def
  by (meson sublist_imp_subseq subseq_order.order_trans subseq_removeTags trim_sublist)

text \<open>What the substitution does to a text given as pieces, and that every text is so
  given.\<close>

lemma removeTags_text_tag:
  assumes "CHR ''<'' \<notin> set t" and "CHR ''>'' \<notin> set b"
  shows "removeTags (t @ CHR ''<'' # b @ CHR ''>'' # rest) = t @ removeTags rest"
  using assms(1)
proof (induction t)
  case Nil
  have "dropWhile (\<lambda>d. d \<noteq> CHR ''>'') (b @ CHR ''>'' # rest) = CHR ''>'' # rest"
    using assms(2) by (induction b) auto
  then show ?case by simp
next
  case (Cons c t)
  then have "c \<noteq> CHR ''<''" and "removeTags (t @ CHR ''<'' # b @ CHR ''>'' # rest) = t @ removeTags rest"
    by auto
  then show ?case by simp
qed

lemma removeTags_with_tags:
  assumes "\<forall>(t, b) \<in> set ps. CHR ''<'' \<notin> set t \<and> CHR ''>'' \<notin> set b" and "\<not> hasTag rest"
  shows "removeTags (with_tags ps rest) = without_tags ps rest"
  using assms(1)
proof (induction ps)
  case Nil
  from assms(2) show ?case by (simp add: without_tags_def removeTags_fix)
next
  case (Cons p ps)
  obtain t b where p: "p = (t, b)" by (cases p)
  with Cons.prems have "CHR ''<'' \<notin> set t" "CHR ''>'' \<notin> set b" by auto
  then have "removeTags (with_tags (p # ps) rest) = t @ removeTags (with_tags ps rest)"
    unfolding p by (simp add: removeTags_text_tag)
  with Cons p show ?case by (simp add: without_tags_def)
qed

lemma with_tags_complete:
  "\<exists>ps rest. s = with_tags ps rest
     \<and> (\<forall>(t, b) \<in> set ps. CHR ''<'' \<notin> set t \<and> CHR ''>'' \<notin> set b) \<and> \<not> hasTag rest"
proof (induction s rule: removeTags.induct)
  case 1
  have "[] = with_tags [] []" by simp
  then show ?case by fastforce
next
  case (2 c cs)
  show ?case
  proof (cases "c = CHR ''<'' \<and> CHR ''>'' \<in> set cs")
    case True
    then obtain b r where cs: "cs = b @ CHR ''>'' # r" and b: "CHR ''>'' \<notin> set b"
      by (meson split_list_first)
    from b have "dropWhile (\<lambda>d. d \<noteq> CHR ''>'') (b @ CHR ''>'' # r) = CHR ''>'' # r"
      by (induction b) auto
    with cs have "tl (dropWhile (\<lambda>d. d \<noteq> CHR ''>'') cs) = r" by simp
    with 2(1) [OF True] obtain ps rest where r: "r = with_tags ps rest"
      and wf: "\<forall>(t, b) \<in> set ps. CHR ''<'' \<notin> set t \<and> CHR ''>'' \<notin> set b" and nt: "\<not> hasTag rest"
      by auto
    from True cs r have "c # cs = with_tags (([], b) # ps) rest" by simp
    moreover from wf b have "\<forall>(t, b) \<in> set (([], b) # ps). CHR ''<'' \<notin> set t \<and> CHR ''>'' \<notin> set b"
      by simp
    ultimately show ?thesis using nt by blast
  next
    case False
    from 2(2) [OF False] obtain ps rest where cs: "cs = with_tags ps rest"
      and wf: "\<forall>(t, b) \<in> set ps. CHR ''<'' \<notin> set t \<and> CHR ''>'' \<notin> set b" and nt: "\<not> hasTag rest"
      by auto
    show ?thesis
    proof (cases ps)
      case Nil
      with cs have "c # cs = with_tags [] (c # rest)" by simp
      moreover from False cs Nil nt have "\<not> hasTag (c # rest)" by simp
      ultimately show ?thesis by fastforce
    next
      case (Cons p ps')
      obtain t b where p: "p = (t, b)" by (cases p)
      from cs Cons p have "CHR ''>'' \<in> set cs" by simp
      with False have c: "c \<noteq> CHR ''<''" by simp
      from cs Cons p have "c # cs = with_tags ((c # t, b) # ps') rest" by simp
      moreover from wf Cons p c
      have "\<forall>(t, b) \<in> set ((c # t, b) # ps'). CHR ''<'' \<notin> set t \<and> CHR ''>'' \<notin> set b"
        by auto
      ultimately show ?thesis using nt by blast
    qed
  qed
qed

text \<open>\<open>trim\<close> takes white space off both ends and nothing else.\<close>

lemma trim_decomp:
  "\<exists>l r. s = l @ trim s @ r \<and> list_all isWhiteSpace l \<and> list_all isWhiteSpace r"
proof -
  let ?l = "takeWhile isWhiteSpace s"
  let ?m = "dropWhile isWhiteSpace s"
  let ?r = "rev (takeWhile isWhiteSpace (rev ?m))"
  have "?m = trimEnd ?m @ ?r"
    unfolding trimEnd_def by (metis rev_append rev_rev_ident takeWhile_dropWhile_id)
  then have "s = ?l @ trim s @ ?r"
    by (metis takeWhile_dropWhile_id trimStart_def trim_def)
  moreover have "list_all isWhiteSpace ?l"
    by (simp add: list_all_iff) (metis set_takeWhileD)
  moreover have "list_all isWhiteSpace ?r"
    by (simp add: list_all_iff) (metis set_takeWhileD)
  ultimately show ?thesis by blast
qed

subsection \<open>Dates\<close>

lemma of_char_digit_char: "d < 10 \<Longrightarrow> (of_char (digit_char d) :: nat) = 48 + d"
  by (simp add: digit_char_def)



lemma digit_char_not_space: "d < 10 \<Longrightarrow> \<not> isWhiteSpace (digit_char d)"
  by (auto simp: isWhiteSpace_def of_char_digit_char)












subsection \<open>Letter case\<close>

text \<open>A lower-case ASCII letter is the lower-case form of itself and of its capital only:
  a text has the lower-case form \<open>presente\<close> exactly when it is that word with each
  letter in either case.\<close>

lemma toLowerCase_char_eq_iff:
  assumes "97 \<le> (of_char l :: nat)" and "(of_char l :: nat) \<le> 122"
  shows "toLowerCase_char c = l \<longleftrightarrow> c = l \<or> (of_char c :: nat) + 32 = of_char l"
proof -
  let ?n = "of_char c :: nat"
  have n: "?n < 256" by simp
  have eq: "c = l \<longleftrightarrow> ?n = of_char l" by (metis char_of_char)
  show ?thesis
  proof (cases "(65 \<le> ?n \<and> ?n \<le> 90) \<or> (192 \<le> ?n \<and> ?n \<le> 222 \<and> ?n \<noteq> 215)")
    case True
    then have "toLowerCase_char c = char_of (?n + 32)"
      unfolding toLowerCase_char_def Let_def by (rule if_P)
    moreover have "char_of (?n + 32) = l \<longleftrightarrow> (?n + 32) mod 256 = of_char l"
      by (metis char_of_char of_char_of)
    moreover from True n have "(?n + 32) mod 256 = ?n + 32" by auto
    ultimately show ?thesis using True assms eq by auto
  next
    case False
    then have "toLowerCase_char c = c"
      unfolding toLowerCase_char_def Let_def by (rule if_not_P)
    with False assms eq show ?thesis by auto
  qed
qed

lemma toLowerCase_presente_iff:
  "toLowerCase s = ''presente'' \<longleftrightarrow>
     list_all2 (\<lambda>c l. c = l \<or> (of_char c :: nat) + 32 = of_char l) s ''presente''"
proof -
  have "toLowerCase s = t \<longleftrightarrow> list_all2 (\<lambda>c l. c = l \<or> (of_char c :: nat) + 32 = of_char l) s t"
    if "\<forall>l \<in> set t. 97 \<le> (of_char l :: nat) \<and> (of_char l :: nat) \<le> 122" for t
    using that
  proof (induction s arbitrary: t)
    case Nil
    then show ?case by (auto simp: toLowerCase_def)
  next
    case (Cons c s)
    show ?case
    proof (cases t)
      case Nil
      then show ?thesis by (simp add: toLowerCase_def)
    next
      case (Cons l t')
      with Cons.prems have l: "97 \<le> (of_char l :: nat)" "(of_char l :: nat) \<le> 122"
        and t': "\<forall>l \<in> set t'. 97 \<le> (of_char l :: nat) \<and> (of_char l :: nat) \<le> 122"
        by auto
      from Cons.IH [OF t'] toLowerCase_char_eq_iff [OF l, of c] Cons show ?thesis
        by (simp add: toLowerCase_def)
    qed
  qed
  then show ?thesis by simp
qed

subsection \<open>Requests\<close>

lemma map_of_searchParams_set_same: "map_of (searchParams_set k v ps) k = Some v"
  by (induction ps) auto

lemma map_of_searchParams_set_other:
  assumes "k' \<noteq> k"
  shows "map_of (searchParams_set k v ps) k' = map_of ps k'"
proof (induction ps)
  case Nil
  from assms show ?case by simp
next
  case (Cons p ps)
  have "map_of (filter (\<lambda>q. fst q \<noteq> k) ps) k' = map_of ps k'"
    using assms by (induction ps) auto
  with Cons assms show ?case by (cases p) auto
qed

lemma href_fold_set:
  "href (fold (\<lambda>(k, v) u'. u'\<lparr> searchParams := searchParams_set k v (searchParams u') \<rparr>) ps u) = href u"
  by (induction ps arbitrary: u) auto

lemma wpFetch_sent:
  "snd (wpFetch w endpoint params) =
     (case wpRequest w endpoint params of Inl e \<Rightarrow> [] | Inr req \<Rightarrow> [req])"
  by (simp add: wpFetch_def split: sum.splits)

lemma wpFetch_sent_eq:
  "snd (wpFetch w endpoint params) = [req] \<longleftrightarrow> wpRequest w endpoint params = Inr req"
  by (simp add: wpFetch_sent split: sum.splits)

lemma wpFetch_at_most_one: "length (snd (wpFetch w endpoint params)) \<le> 1"
  by (simp add: wpFetch_sent split: sum.splits)

lemma wpFetch_settled:
  assumes "snd (wpFetch w endpoint params) = [req]" and "fetch w req = Inr res"
  shows "fst (wpFetch w endpoint params) =
           (if ok res then json res
            else Inl (Error (''WP API Error '' @ String_nat (status res) @ '': '' @ endpoint)))"
  using assms by (simp add: wpFetch_sent_eq) (simp add: wpFetch_def)

lemma wpFetch_rejected:
  assumes "snd (wpFetch w endpoint params) = [req]" and "fetch w req = Inl e"
  shows "fst (wpFetch w endpoint params) = Inl e"
  using assms by (simp add: wpFetch_sent_eq) (simp add: wpFetch_def)



lemma getExperiences_eq:
  "getExperiences w =
     wpFetch w ''/wp/v2/experience''
       (Some [(''per_page'', ''100''), (''_fields'', ''id,title,acf''),
              (''orderby'', ''date''), (''order'', ''desc'')])"
  by (simp add: getExperiences_def split: prod.splits sum.splits)

lemma example_world_sent:
  "wpRequest (example_world st body) endpoint (Some ps) =
     Inr \<lparr> req_url = fold (\<lambda>(k, v) u'. u'\<lparr> searchParams := searchParams_set k v (searchParams u') \<rparr>) ps
                        \<lparr> href = ''https://tu-sitio.com/wp-json'' @ endpoint, searchParams = [] \<rparr>,
           req_headers = [(''Content-Type'', ''application/json'')] \<rparr>"
  by (simp add: wpRequest_def example_world_def BASE_def)

lemma example_world_fetch: "fetch (example_world st body) req = Inr \<lparr> status = st, json = body \<rparr>"
  by (simp add: example_world_def)

subsection \<open>Groups\<close>

lemma first_labels_snoc:
  "first_labels (xs @ [x]) =
     (if skill_label x \<in> skill_label ` set xs then first_labels xs else first_labels xs @ [skill_label x])"
  by (simp add: first_labels_def)

lemma distinct_first_labels: "distinct (first_labels xs)"
  by (simp add: first_labels_def)

lemma set_first_labels: "set (first_labels xs) = skill_label ` set xs"
  by (simp add: first_labels_def)

lemma map_of_groups_of:
  "map_of (groups_of xs) k =
     (if k \<in> skill_label ` set xs then Some (filter (\<lambda>s. skill_label s = k) xs) else None)"
proof -
  have "map_of (map (\<lambda>k. (k, f k)) ks) k = (if k \<in> set ks then Some (f k) else None)"
    for f :: "string \<Rightarrow> Skill list" and ks
    by (induction ks) auto
  then show ?thesis by (simp add: groups_of_def set_first_labels)
qed

lemma own_update_map:
  "own_update k v (map (\<lambda>j. (j, f j)) ks) =
     (if k \<in> set ks then map (\<lambda>j. (j, if j = k then v else f j)) ks
      else map (\<lambda>j. (j, f j)) ks @ [(k, v)])" if "distinct ks"
  using that by (induction ks) auto

lemma group_step_groups_of:
  assumes "skill_label x \<notin> set objectPrototypeKeys"
  shows "group_step (groups_of xs) x = Inr (groups_of (xs @ [x]))"
proof (cases "skill_label x \<in> skill_label ` set xs")
  case True
  then have "group_step (groups_of xs) x =
      Inr (own_update (skill_label x) (filter (\<lambda>s. skill_label s = skill_label x) xs @ [x]) (groups_of xs))"
    by (simp add: group_step_def Let_def map_of_groups_of)
  also have "own_update (skill_label x) (filter (\<lambda>s. skill_label s = skill_label x) xs @ [x]) (groups_of xs)
      = groups_of (xs @ [x])"
    using True unfolding groups_of_def
    by (subst own_update_map) (auto simp: distinct_first_labels set_first_labels first_labels_snoc)
  finally show ?thesis .
next
  case False
  then have "group_step (groups_of xs) x = Inr (own_update (skill_label x) [x] (groups_of xs))"
    using assms by (simp add: group_step_def Let_def map_of_groups_of)
  also have "own_update (skill_label x) [x] (groups_of xs) = groups_of (xs @ [x])"
  proof -
    from False have "filter (\<lambda>s. skill_label s = skill_label x) xs = []"
      unfolding filter_empty_conv by (metis imageI)
    with False show ?thesis unfolding groups_of_def
      by (subst own_update_map) (auto simp: distinct_first_labels set_first_labels first_labels_snoc)
  qed
  finally show ?thesis .
qed

lemma reduce_groups_of:
  assumes "\<forall>s \<in> set ys. skill_label s \<notin> set objectPrototypeKeys"
  shows "reduce_js group_step ys (groups_of xs) = Inr (groups_of (xs @ ys))"
  using assms
proof (induction ys arbitrary: xs)
  case Nil
  show ?case by simp
next
  case (Cons y ys)
  from Cons.prems have "group_step (groups_of xs) y = Inr (groups_of (xs @ [y]))"
    by (simp add: group_step_groups_of)
  moreover from Cons.prems have "reduce_js group_step ys (groups_of (xs @ [y])) = Inr (groups_of ((xs @ [y]) @ ys))"
    by (intro Cons.IH) simp
  ultimately show ?case by simp
qed

lemma groupSkills_safe:
  assumes "\<forall>s \<in> set skills. skill_label s \<notin> set objectPrototypeKeys"
  shows "groupSkillsByCategory skills = Inr (groups_of skills)"
  using reduce_groups_of [OF assms, of "[]"]
  by (simp add: groupSkillsByCategory_def groups_of_def first_labels_def)

lemma mset_concat_filter:
  "distinct ks \<Longrightarrow>
   mset (concat (map (\<lambda>k. filter (\<lambda>s. f s = k) xs) ks)) = mset (filter (\<lambda>s. f s \<in> set ks) xs)"
proof (induction ks)
  case Nil
  show ?case by simp
next
  case (Cons k ks)
  then have "mset (concat (map (\<lambda>k. filter (\<lambda>s. f s = k) xs) (k # ks)))
      = filter_mset (\<lambda>s. f s = k) (mset xs) + filter_mset (\<lambda>s. f s \<in> set ks) (mset xs)"
    by simp
  also have "\<dots> = filter_mset (\<lambda>s. f s \<in> set (k # ks)) (mset xs)"
    using Cons.prems by (auto simp: multiset_eq_iff)
  finally show ?case by simp
qed

lemma mset_groups_of: "mset (concat (map snd (groups_of xs))) = mset xs"
proof -
  have "map snd (groups_of xs) = map (\<lambda>k. filter (\<lambda>s. skill_label s = k) xs) (first_labels xs)"
    by (simp add: groups_of_def comp_def)
  then show ?thesis
    by (simp add: mset_concat_filter distinct_first_labels set_first_labels)
qed

text \<open>
  When no label is a name that \<open>Object.prototype\<close> defines, the grouping returns, and
  its groups partition the input: the labels are those of the skills, each once, in the
  order of their first occurrence; the group of a label holds exactly the skills of that
  label, in their order, and is not empty; a skill without a category has the label
  \<open>Otros\<close>; and all groups together are a permutation of the input.  (The list keeps
  the order in which the properties were created.  An enumeration of the object would put
  labels that are array indices first; nothing below depends on the order.)
\<close>

lemma groupSkillsByCategory_partition:
  assumes "\<forall>s \<in> set skills. skill_label s \<notin> set objectPrototypeKeys"
  shows "\<exists>groups. groupSkillsByCategory skills = Inr groups
     \<and> map fst groups = first_labels skills
     \<and> distinct (map fst groups)
     \<and> (\<forall>(k, g) \<in> set groups. g \<noteq> [] \<and> g = filter (\<lambda>s. skill_label s = k) skills)
     \<and> (\<forall>s \<in> set skills. skill_label s \<in> fst ` set groups)
     \<and> (\<forall>s \<in> set skills. category (skill_acf s) = None \<longrightarrow> skill_label s = ''Otros'')
     \<and> mset (concat (map snd groups)) = mset skills"
proof -
  have g: "groupSkillsByCategory skills = Inr (groups_of skills)"
    using assms by (rule groupSkills_safe)
  have k: "map fst (groups_of skills) = first_labels skills"
    by (simp add: groups_of_def comp_def)
  have "\<forall>(k, g) \<in> set (groups_of skills). g \<noteq> [] \<and> g = filter (\<lambda>s. skill_label s = k) skills"
    by (auto simp: groups_of_def set_first_labels filter_empty_conv)
  moreover have "\<forall>s \<in> set skills. skill_label s \<in> fst ` set (groups_of skills)"
    using k set_first_labels [of skills] by (metis imageI set_map)
  moreover have "\<forall>s \<in> set skills. category (skill_acf s) = None \<longrightarrow> skill_label s = ''Otros''"
    by (simp add: skill_label_def)
  ultimately show ?thesis
    using g k distinct_first_labels [of skills] mset_groups_of [of skills] by auto
qed

text \<open>With a label that \<open>Object.prototype\<close> defines anywhere in the input, the
  grouping throws.\<close>

lemma groupSkills_unsafe:
  assumes "\<exists>s \<in> set skills. skill_label s \<in> set objectPrototypeKeys"
  shows "\<exists>e. groupSkillsByCategory skills = Inl e"
proof -
  have "\<exists>e. reduce_js group_step ys (groups_of xs) = Inl e"
    if "\<exists>s \<in> set ys. skill_label s \<in> set objectPrototypeKeys"
      and "\<forall>s \<in> set xs. skill_label s \<notin> set objectPrototypeKeys" for xs ys
    using that
  proof (induction ys arbitrary: xs)
    case Nil
    then show ?case by simp
  next
    case (Cons y ys)
    show ?case
    proof (cases "skill_label y \<in> set objectPrototypeKeys")
      case True
      with Cons.prems(2) have "skill_label y \<notin> skill_label ` set xs" by auto
      with True have "group_step (groups_of xs) y = Inl (TypeError ''acc[cat].push is not a function'')"
        by (simp add: group_step_def Let_def map_of_groups_of)
      then show ?thesis by simp
    next
      case False
      then have "group_step (groups_of xs) y = Inr (groups_of (xs @ [y]))"
        by (rule group_step_groups_of)
      moreover have "\<exists>e. reduce_js group_step ys (groups_of (xs @ [y])) = Inl e"
        using Cons.prems False by (intro Cons.IH) auto
      ultimately show ?thesis by simp
    qed
  qed
  from this [of skills "[]"] assms show ?thesis
    by (simp add: groupSkillsByCategory_def groups_of_def first_labels_def)
qed

subsection \<open>The formatting helpers\<close>





text \<open>
  Claim C9.  \<open>getFeaturedImage\<close> gives the source URL of the first entry of the embedded
  featured media when there is one, and the empty string when the embedded part, the media
  list, its first entry or that entry's source URL is missing.  It is a total function: no
  post makes it fail.
\<close>

theorem getFeaturedImage_first_or_empty:
  "(post_embedded post = None \<longrightarrow> getFeaturedImage post = [])
   \<and> (post_embedded post = Some e \<and> wp_featuredmedia e = None \<longrightarrow> getFeaturedImage post = [])
   \<and> (post_embedded post = Some e \<and> wp_featuredmedia e = Some [] \<longrightarrow> getFeaturedImage post = [])
   \<and> (post_embedded post = Some e \<and> wp_featuredmedia e = Some (m # ms) \<and> source_url m = None
        \<longrightarrow> getFeaturedImage post = [])
   \<and> (post_embedded post = Some e \<and> wp_featuredmedia e = Some (m # ms) \<and> source_url m = Some u
        \<longrightarrow> getFeaturedImage post = u)"
  by (simp add: getFeaturedImage_def nth_opt_def)

theorem getFeaturedImage_first_or_empty_witness:
  "getFeaturedImage (example_post None) = []
   \<and> getFeaturedImage (example_post (Some \<lparr> wp_featuredmedia = None, wp_term = None \<rparr>)) = []
   \<and> getFeaturedImage (example_post (Some \<lparr> wp_featuredmedia = Some [], wp_term = None \<rparr>)) = []
   \<and> getFeaturedImage (example_post (Some \<lparr> wp_featuredmedia =
         Some [\<lparr> source_url = None, alt_text = [] \<rparr>], wp_term = None \<rparr>)) = []
   \<and> getFeaturedImage (example_post (Some \<lparr> wp_featuredmedia =
         Some [\<lparr> source_url = Some ''https://cdn/a.png'', alt_text = ''a'' \<rparr>,
               \<lparr> source_url = Some ''https://cdn/b.png'', alt_text = ''b'' \<rparr>], wp_term = None \<rparr>))
       = ''https://cdn/a.png''"
  using
    getFeaturedImage_first_or_empty [of "example_post None"]
    getFeaturedImage_first_or_empty [of "example_post (Some \<lparr> wp_featuredmedia = None, wp_term = None \<rparr>)"
      "\<lparr> wp_featuredmedia = None, wp_term = None \<rparr>"]
    getFeaturedImage_first_or_empty [of "example_post (Some \<lparr> wp_featuredmedia = Some [], wp_term = None \<rparr>)"
      "\<lparr> wp_featuredmedia = Some [], wp_term = None \<rparr>"]
    getFeaturedImage_first_or_empty [of
      "example_post (Some \<lparr> wp_featuredmedia = Some [\<lparr> source_url = None, alt_text = [] \<rparr>], wp_term = None \<rparr>)"
      "\<lparr> wp_featuredmedia = Some [\<lparr> source_url = None, alt_text = [] \<rparr>], wp_term = None \<rparr>"
      "\<lparr> source_url = None, alt_text = [] \<rparr>" "[]"]
    getFeaturedImage_first_or_empty [of
      "example_post (Some \<lparr> wp_featuredmedia =
         Some [\<lparr> source_url = Some ''https://cdn/a.png'', alt_text = ''a'' \<rparr>,
               \<lparr> source_url = Some ''https://cdn/b.png'', alt_text = ''b'' \<rparr>], wp_term = None \<rparr>)"
      "\<lparr> wp_featuredmedia =
         Some [\<lparr> source_url = Some ''https://cdn/a.png'', alt_text = ''a'' \<rparr>,
               \<lparr> source_url = Some ''https://cdn/b.png'', alt_text = ''b'' \<rparr>], wp_term = None \<rparr>"
      "\<lparr> source_url = Some ''https://cdn/a.png'', alt_text = ''a'' \<rparr>"
      "[\<lparr> source_url = Some ''https://cdn/b.png'', alt_text = ''b'' \<rparr>]" "''https://cdn/a.png''"]
  by (simp add: example_post_def)

text \<open>
  Claim C8.  \<open>stripHtml\<close> is one pass of the global tag substitution followed by a trim:
  on \<open><p>Hello <b>World</b></p>\<close> it gives \<open>Hello World\<close>.  In general, write the
  input as stretches of text without \<open><\<close>, each followed by a tag \<open><\<close>...\<open>>\<close>
  whose inside has no \<open>>\<close>, and a last stretch in which no tag begins; every input can be
  written so.  The pass deletes the tags and keeps every stretch, in order and unchanged;
  the trim then takes white space off the two ends of what the pass left, and nothing else.
  So a text without a tag is only trimmed, and no tag is left in any result.
\<close>

theorem stripHtml_removes_tags:
  "stripHtml ''<p>Hello <b>World</b></p>'' = ''Hello World''
   \<and> ((\<forall>(t, b) \<in> set ps. CHR ''<'' \<notin> set t \<and> CHR ''>'' \<notin> set b) \<and> \<not> hasTag rest \<longrightarrow>
        removeTags (with_tags ps rest) = without_tags ps rest
        \<and> stripHtml (with_tags ps rest) = trim (without_tags ps rest))
   \<and> (\<exists>qs r. s = with_tags qs r
          \<and> (\<forall>(t, b) \<in> set qs. CHR ''<'' \<notin> set t \<and> CHR ''>'' \<notin> set b) \<and> \<not> hasTag r)
   \<and> (\<not> hasTag s \<longrightarrow> stripHtml s = trim s)
   \<and> (\<exists>l r. removeTags s = l @ stripHtml s @ r \<and> list_all isWhiteSpace l \<and> list_all isWhiteSpace r)
   \<and> (stripHtml s = [] \<or> (\<not> isWhiteSpace (hd (stripHtml s)) \<and> \<not> isWhiteSpace (last (stripHtml s))))
   \<and> stripHtml s = trim (removeTags s)
   \<and> \<not> hasTag (removeTags s)
   \<and> \<not> hasTag (stripHtml s)
   \<and> subseq (stripHtml s) s"
proof -
  have example: "stripHtml ''<p>Hello <b>World</b></p>'' = ''Hello World''"
    by (simp add: stripHtml_def trim_def trimStart_def trimEnd_def isWhiteSpace_def)
  have pieces: "(\<forall>(t, b) \<in> set ps. CHR ''<'' \<notin> set t \<and> CHR ''>'' \<notin> set b) \<and> \<not> hasTag rest \<longrightarrow>
        removeTags (with_tags ps rest) = without_tags ps rest
        \<and> stripHtml (with_tags ps rest) = trim (without_tags ps rest)"
    by (simp add: stripHtml_def removeTags_with_tags)
  have every: "\<exists>qs r. s = with_tags qs r
          \<and> (\<forall>(t, b) \<in> set qs. CHR ''<'' \<notin> set t \<and> CHR ''>'' \<notin> set b) \<and> \<not> hasTag r"
    by (rule with_tags_complete)
  have plain: "\<not> hasTag s \<longrightarrow> stripHtml s = trim s"
    by (simp add: stripHtml_def removeTags_fix)
  have around: "\<exists>l r. removeTags s = l @ stripHtml s @ r \<and> list_all isWhiteSpace l \<and> list_all isWhiteSpace r"
    unfolding stripHtml_def by (rule trim_decomp)
  have ends: "stripHtml s = [] \<or> (\<not> isWhiteSpace (hd (stripHtml s)) \<and> \<not> isWhiteSpace (last (stripHtml s)))"
    unfolding stripHtml_def using trim_no_lead [of "removeTags s"] trim_no_trail [of "removeTags s"]
    by blast
  have def: "stripHtml s = trim (removeTags s)" by (simp add: stripHtml_def)
  from example pieces every plain around ends def removeTags_no_tag [of s] stripHtml_no_tag [of s]
    subseq_stripHtml [of s]
  show ?thesis by blast
qed

theorem stripHtml_removes_tags_witness:
  "with_tags [('' Hola '', ''em''), (''mundo'', ''/em'')] ''! '' = '' Hola <em>mundo</em>! ''
   \<and> \<not> hasTag ''! ''
   \<and> removeTags '' Hola <em>mundo</em>! '' = '' Hola mundo! ''
   \<and> stripHtml '' Hola <em>mundo</em>! '' = ''Hola mundo!''
   \<and> \<not> hasTag ''a < b''
   \<and> stripHtml ''a < b'' = ''a < b''"
proof -
  let ?ps = "[('' Hola '', ''em''), (''mundo'', ''/em'')]"
  have w: "with_tags ?ps ''! '' = '' Hola <em>mundo</em>! ''" by simp
  have wf: "\<forall>(t, b) \<in> set ?ps. CHR ''<'' \<notin> set t \<and> CHR ''>'' \<notin> set b" by simp
  have nt: "\<not> hasTag ''! ''" by simp
  have wo: "without_tags ?ps ''! '' = '' Hola mundo! ''" by (simp add: without_tags_def)
  have tr: "trim '' Hola mundo! '' = ''Hola mundo!''"
    by (simp add: trim_def trimStart_def trimEnd_def isWhiteSpace_def)
  note t = stripHtml_removes_tags [of ?ps "''! ''" "''a < b''"]
  from t wf nt have "removeTags (with_tags ?ps ''! '') = without_tags ?ps ''! ''"
    and "stripHtml (with_tags ?ps ''! '') = trim (without_tags ?ps ''! '')" by blast+
  then have a: "removeTags '' Hola <em>mundo</em>! '' = '' Hola mundo! ''"
    and b: "stripHtml '' Hola <em>mundo</em>! '' = ''Hola mundo!''"
    unfolding w wo tr by simp_all
  have n: "\<not> hasTag ''a < b''" by simp
  have "trim ''a < b'' = ''a < b''"
    by (simp add: trim_def trimStart_def trimEnd_def isWhiteSpace_def)
  with t n have c: "stripHtml ''a < b'' = ''a < b''" by metis
  from w nt a b n c show ?thesis by blast
qed

text \<open>
  Claim C10.  \<open>stripHtml\<close> is idempotent: its result has no tag left and no white space
  at either end, so a second application changes nothing.
\<close>

theorem stripHtml_idempotent: "stripHtml (stripHtml s) = stripHtml s"
proof -
  have "removeTags (stripHtml s) = stripHtml s"
    by (rule removeTags_fix) (rule stripHtml_no_tag)
  then show ?thesis
    by (simp add: stripHtml_def trim_idem)
qed

subsection \<open>The accessors\<close>

text \<open>
  Claim C4.  For every count \<open>n\<close>, \<open>getLatestPosts(n)\<close> is \<open>getPosts(n, 1)\<close>: the same
  request is sent and the same value comes back.
\<close>

theorem getLatestPosts_alias:
  "getLatestPosts w (Some n) = getPosts w (Some n) (Some 1)"
  by (simp add: getLatestPosts_def)






text \<open>
  Claim C7.  \<open>getExperiences\<close> sends one request, to the URL of the endpoint
  \<open>/wp/v2/experience\<close>, with the parameters \<open>per_page=100\<close>, \<open>_fields=id,title,acf\<close>,
  \<open>orderby=date\<close> and \<open>order=desc\<close> (and no other when the base URL has none), and
  returns the decoded body as it is: the order is the one the server gives for the
  publication date, descending; the module does not sort, and neither \<open>start_date\<close> nor
  \<open>end_date\<close> is looked at.
\<close>

theorem getExperiences_request:
  assumes "new_URL w (BASE w @ ''/wp/v2/experience'') = Inr u"
  shows "\<exists>req. snd (getExperiences w) = [req]
      \<and> href (req_url req) = href u
      \<and> map_of (searchParams (req_url req)) ''per_page'' = Some ''100''
      \<and> map_of (searchParams (req_url req)) ''_fields'' = Some ''id,title,acf''
      \<and> map_of (searchParams (req_url req)) ''orderby'' = Some ''date''
      \<and> map_of (searchParams (req_url req)) ''order'' = Some ''desc''
      \<and> (searchParams u = [] \<longrightarrow> searchParams (req_url req) =
            [(''per_page'', ''100''), (''_fields'', ''id,title,acf''),
             (''orderby'', ''date''), (''order'', ''desc'')])
      \<and> (\<forall>res. fetch w req = Inr res \<and> ok res \<longrightarrow> fst (getExperiences w) = json res)"
proof -
  let ?ps = "Some [(''per_page'', ''100''), (''_fields'', ''id,title,acf''),
                   (''orderby'', ''date''), (''order'', ''desc'')]"
  from assms obtain req where req: "wpRequest w ''/wp/v2/experience'' ?ps = Inr req"
    by (simp add: wpRequest_def)
  then have s: "snd (getExperiences w) = [req]"
    by (simp add: getExperiences_eq wpFetch_sent)
  from req assms have u: "req_url req =
      fold (\<lambda>(k, v) u'. u'\<lparr> searchParams := searchParams_set k v (searchParams u') \<rparr>)
        [(''per_page'', ''100''), (''_fields'', ''id,title,acf''), (''orderby'', ''date''), (''order'', ''desc'')] u"
    by (auto simp: wpRequest_def)
  have "href (req_url req) = href u" unfolding u by (rule href_fold_set)
  moreover have "map_of (searchParams (req_url req)) ''per_page'' = Some ''100''"
    "map_of (searchParams (req_url req)) ''_fields'' = Some ''id,title,acf''"
    "map_of (searchParams (req_url req)) ''orderby'' = Some ''date''"
    "map_of (searchParams (req_url req)) ''order'' = Some ''desc''"
    unfolding u by (simp_all add: map_of_searchParams_set_same map_of_searchParams_set_other)
  moreover have "searchParams u = [] \<longrightarrow> searchParams (req_url req) =
            [(''per_page'', ''100''), (''_fields'', ''id,title,acf''),
             (''orderby'', ''date''), (''order'', ''desc'')]"
    unfolding u by simp
  moreover have "\<forall>res. fetch w req = Inr res \<and> ok res \<longrightarrow> fst (getExperiences w) = json res"
    using s by (auto simp: getExperiences_eq wpFetch_settled)
  ultimately show ?thesis using s by blast
qed

theorem getExperiences_request_witness:
  "snd (getExperiences (example_world 200 (Inr []))) =
     [\<lparr> req_url = \<lparr> href = ''https://tu-sitio.com/wp-json/wp/v2/experience'',
                     searchParams = [(''per_page'', ''100''), (''_fields'', ''id,title,acf''),
                                     (''orderby'', ''date''), (''order'', ''desc'')] \<rparr>,
        req_headers = [(''Content-Type'', ''application/json'')] \<rparr>]
   \<and> fst (getExperiences (example_world 200 (Inr []))) = Inr []"
proof -
  let ?w = "example_world 200 (Inr []) :: Experience list world"
  let ?u = "\<lparr> href = ''https://tu-sitio.com/wp-json/wp/v2/experience'', searchParams = [] \<rparr>"
  have n: "new_URL ?w (BASE ?w @ ''/wp/v2/experience'') = Inr ?u"
    by (simp add: example_world_def BASE_def)
  have e: "snd (getExperiences ?w) =
     [\<lparr> req_url = \<lparr> href = ''https://tu-sitio.com/wp-json/wp/v2/experience'',
                     searchParams = [(''per_page'', ''100''), (''_fields'', ''id,title,acf''),
                                     (''orderby'', ''date''), (''order'', ''desc'')] \<rparr>,
        req_headers = [(''Content-Type'', ''application/json'')] \<rparr>]"
    by (simp add: getExperiences_eq wpFetch_sent example_world_sent)
  from getExperiences_request [OF n] obtain req where
    f: "\<forall>res. fetch ?w req = Inr res \<and> ok res \<longrightarrow> fst (getExperiences ?w) = json res"
    by blast
  have "fetch ?w req = Inr \<lparr> status = 200, json = Inr [] \<rparr>" by (rule example_world_fetch)
  moreover have "ok (\<lparr> status = 200, json = Inr [] \<rparr> :: Experience list response)"
    by (simp add: ok_def)
  ultimately have "fst (getExperiences ?w) = Inr []" using f by fastforce
  with e show ?thesis by simp
qed

subsection \<open>The grouping\<close>

text \<open>
  Claim C1.  \<open>groupSkillsByCategory\<close> is to partition every list of skills by label.  It
  does so on the lists \<open>groupSkillsByCategory_partition\<close> covers, as on the third list
  below, where the skill without a category goes under \<open>Otros\<close>.  On a list with a skill
  whose category is \<open>constructor\<close>, or \<open>toString\<close>, or another name that the empty object
  inherits, it returns no groups: it throws a TypeError.
\<close>

theorem groupSkillsByCategory_inherited_label:
  "groupSkillsByCategory [example_skill 1 (Some ''constructor'')]
     = Inl (TypeError ''acc[cat].push is not a function'')
   \<and> groupSkillsByCategory
        [example_skill 1 (Some ''Frontend''), example_skill 2 (Some ''toString''),
         example_skill 3 (Some ''Frontend'')]
     = Inl (TypeError ''acc[cat].push is not a function'')
   \<and> groupSkillsByCategory
        [example_skill 1 (Some ''Frontend''), example_skill 2 None, example_skill 3 (Some ''Frontend'')]
     = Inr [(''Frontend'', [example_skill 1 (Some ''Frontend''), example_skill 3 (Some ''Frontend'')]),
            (''Otros'', [example_skill 2 None])]"
  by (simp add: groupSkillsByCategory_def group_step_def Let_def skill_label_def example_skill_def
      objectPrototypeKeys_def)

end
